theory Spec2Isabelle
  imports
    Main
    "HOL-Library.Sublist"
    "HOL-Library.Char_ord"
    "HOL-Library.List_Lexorder"
    "HOL-Library.Multiset"
    "HOL-Library.Word"
begin

section \<open>WoW Texture Viewer: the upload, list, delete and file-serving handlers\<close>

text \<open>
  The development embeds \<^verbatim>\<open>src/main.py\<close> (the imageio variant, with a relocatable
  storage root) and, where the two differ, \<^verbatim>\<open>src/backend/main.py\<close> (the Pillow
  variant). The image libraries, SQLite, the filesystem, the clock and the random
  identifier generator are outside the repository: the codecs are parameters, the table
  and the filesystem are explicit state, and what the clock, \<^verbatim>\<open>uuid4\<close> and the disk
  answer for one file is an explicit input of that file's step.

  Strings are \<^typ>\<open>string\<close>; case folding is modelled on the ASCII letters, where
  Python's \<^verbatim>\<open>str.lower\<close> and SQLite's \<^verbatim>\<open>LOWER\<close> agree.
\<close>

subsection \<open>Strings\<close>

definition lower_chr :: "char \<Rightarrow> char" where
  "lower_chr c =
     (let n = (of_char c :: nat) in if 65 \<le> n \<and> n \<le> 90 then char_of (n + 32) else c)"

definition lower :: "string \<Rightarrow> string" where
  "lower s = map lower_chr s"

text \<open>\<^verbatim>\<open>str.endswith\<close> and \<^verbatim>\<open>str.startswith\<close>.\<close>

definition endswith :: "string \<Rightarrow> string \<Rightarrow> bool" where
  "endswith s e = suffix e s"

definition startswith :: "string \<Rightarrow> string \<Rightarrow> bool" where
  "startswith s p = prefix p s"

text \<open>
  \<^verbatim>\<open>s.split(sep)\<close> for a one-character separator: the pieces between the
  occurrences of the separator, never an empty list.
\<close>

fun split_chr :: "char \<Rightarrow> string \<Rightarrow> string list" where
  "split_chr sep [] = [[]]"
| "split_chr sep (c # cs) =
     (if c = sep then [] # split_chr sep cs
      else (case split_chr sep cs of
              [] \<Rightarrow> [[c]]
            | p # ps \<Rightarrow> (c # p) # ps))"

text \<open>\<^verbatim>\<open>parts[-1]\<close> on the result of a split, which has at least one piece.\<close>

definition last_piece :: "char \<Rightarrow> string \<Rightarrow> string" where
  "last_piece sep s = last (split_chr sep s)"

text \<open>\<^verbatim>\<open>s.lstrip("/")\<close>.\<close>

definition lstrip_slash :: "string \<Rightarrow> string" where
  "lstrip_slash s = dropWhile (\<lambda>c. c = CHR ''/'') s"

text \<open>\<^verbatim>\<open>"/".join(parts)\<close>.\<close>

fun join_slash :: "string list \<Rightarrow> string" where
  "join_slash [] = []"
| "join_slash [p] = p"
| "join_slash (p # q # ps) = p @ ''/'' @ join_slash (q # ps)"

subsection \<open>Filename classifier\<close>

text \<open>
  \<^verbatim>\<open>SUPPORTED\<close> of \<^verbatim>\<open>src/main.py\<close>. The source iterates a set, in no fixed order;
  the handlers only test whether the result of \<^verbatim>\<open>ext_of\<close> is empty, which depends on
  the set of extensions alone (lemma \<open>ext_of_in_empty_iff\<close> below).
\<close>

definition SUPPORTED :: "string list" where
  "SUPPORTED = [''.png'', ''.jpg'', ''.jpeg'', ''.webp'', ''.bmp'']"

text \<open>\<^verbatim>\<open>SUPPORTED\<close> of \<^verbatim>\<open>src/backend/main.py\<close>.\<close>

definition SUPPORTED_backend :: "string list" where
  "SUPPORTED_backend = [''.blp'', ''.tga'', ''.png'', ''.jpg'', ''.jpeg'', ''.webp'', ''.bmp'']"

fun ext_of_in :: "string list \<Rightarrow> string \<Rightarrow> string" where
  "ext_of_in [] low = []"
| "ext_of_in (e # es) low = (if endswith low e then e else ext_of_in es low)"

definition ext_of :: "string \<Rightarrow> string" where
  "ext_of filename = ext_of_in SUPPORTED (lower filename)"

definition ext_of_backend :: "string \<Rightarrow> string" where
  "ext_of_backend filename = ext_of_in SUPPORTED_backend (lower filename)"

text \<open>
  \<^verbatim>\<open>f.filename.split("/")[-1].split("\\")[-1]\<close>: the name the upload loop
  classifies and records.
\<close>

definition client_name :: "string \<Rightarrow> string" where
  "client_name filename = last_piece (CHR 0x5C) (last_piece (CHR ''/'') filename)"

subsection \<open>Paths\<close>

text \<open>
  A \<^verbatim>\<open>pathlib\<close> path is the list of its \<^verbatim>\<open>parts\<close>; an absolute path starts with
  the part \<^verbatim>\<open>/\<close>. Parsing a string drops empty and \<^verbatim>\<open>.\<close> components and keeps
  \<^verbatim>\<open>..\<close>, as \<^verbatim>\<open>PurePosixPath\<close> does (its special root \<^verbatim>\<open>//\<close> is not modelled).
\<close>

type_synonym path = "string list"

definition parse_path :: "string \<Rightarrow> path" where
  "parse_path s =
     (if startswith s ''/'' then [''/''] else []) @
     filter (\<lambda>p. p \<noteq> [] \<and> p \<noteq> ''.'') (split_chr (CHR ''/'') s)"

text \<open>\<^verbatim>\<open>p / s\<close>: an absolute right operand replaces the left one.\<close>

definition path_div :: "path \<Rightarrow> string \<Rightarrow> path" where
  "path_div p s = (if startswith s ''/'' then parse_path s else p @ parse_path s)"

text \<open>\<^verbatim>\<open>p.relative_to(other)\<close>: purely lexical; \<open>None\<close> is the \<^verbatim>\<open>ValueError\<close>.\<close>

definition relative_to :: "path \<Rightarrow> path \<Rightarrow> path option" where
  "relative_to p other = (if prefix other p then Some (drop (length other) p) else None)"

definition as_posix :: "path \<Rightarrow> string" where
  "as_posix p =
     (case p of
        [] \<Rightarrow> ''.''
      | r # ps \<Rightarrow> if r = ''/'' then ''/'' @ join_slash ps else join_slash (r # ps))"

text \<open>\<^verbatim>\<open>p.name\<close>: the last part, empty for the root and for the empty path.\<close>

definition path_name :: "path \<Rightarrow> string" where
  "path_name p = (if p = [] \<or> p = [''/''] then [] else last p)"

subsection \<open>Configuration\<close>

text \<open>
  \<^verbatim>\<open>BASE_DIR\<close> is the resolved directory of the module, \<^verbatim>\<open>IMAGE_DIR\<close> the value of
  the environment variable of that name when it is set.
\<close>

record config =
  BASE_DIR :: path
  IMAGE_DIR_env :: "string option"

definition STATIC_DIR :: "config \<Rightarrow> path" where
  "STATIC_DIR cfg = BASE_DIR cfg @ [''static'']"

definition IMAGE_DIR :: "config \<Rightarrow> path" where
  "IMAGE_DIR cfg =
     (case IMAGE_DIR_env cfg of
        None \<Rightarrow> STATIC_DIR cfg @ [''images'']
      | Some s \<Rightarrow> parse_path s)"

definition DB_PATH :: "config \<Rightarrow> path" where
  "DB_PATH cfg = IMAGE_DIR cfg @ [''images.db'']"

text \<open>\<^verbatim>\<open>IMG_DIR\<close> and \<^verbatim>\<open>DB_PATH\<close> of \<^verbatim>\<open>src/backend/main.py\<close>.\<close>

definition IMG_DIR_backend :: "config \<Rightarrow> path" where
  "IMG_DIR_backend cfg = STATIC_DIR cfg @ [''images'']"

definition DB_PATH_backend :: "config \<Rightarrow> path" where
  "DB_PATH_backend cfg = BASE_DIR cfg @ [''images.db'']"

subsection \<open>Data model and state\<close>

type_synonym bytes = "8 word list"

record image_item =
  id' :: string
  name :: string
  width :: int
  height :: int
  url :: string
  created_at :: string

datatype fs_node = File bytes | Dir

type_synonym filesystem = "path \<rightharpoonup> fs_node"

text \<open>The \<^verbatim>\<open>images\<close> table in insertion order, and the filesystem.\<close>

record world =
  rows :: "image_item list"
  fs :: filesystem

datatype py_exception =
    HTTPException nat string
  | UnidentifiedImageError
  | IntegrityError
  | OSError
  | RuntimeError

subsection \<open>Codec adapters\<close>

text \<open>
  The imageio library of \<^verbatim>\<open>src/main.py\<close>: \<^verbatim>\<open>imread\<close> gives an array or raises
  (\<open>None\<close>), \<^verbatim>\<open>imwrite(buf, arr, format="PNG")\<close> gives the PNG bytes or raises.
  An array has its \<^verbatim>\<open>shape\<close> (rows, columns, then channels if any) and its data.
\<close>

record ndarray =
  shape :: "nat list"
  data :: "nat list"

record imageio =
  imread :: "bytes \<Rightarrow> ndarray option"
  imwrite_png :: "ndarray \<Rightarrow> bytes option"

text \<open>
  \<^verbatim>\<open>to_png_bytes\<close> of \<^verbatim>\<open>src/main.py\<close>. \<^verbatim>\<open>shape[0]\<close> and \<^verbatim>\<open>shape[1]\<close> raise
  on an array of fewer than two dimensions; every exception in the body leaves as
  \<^verbatim>\<open>UnidentifiedImageError\<close>.
\<close>

definition to_png_bytes :: "imageio \<Rightarrow> bytes \<Rightarrow> py_exception + (bytes \<times> int \<times> int \<times> string)" where
  "to_png_bytes io raw =
     (case imread io raw of
        None \<Rightarrow> Inl UnidentifiedImageError
      | Some img_array \<Rightarrow>
          (case shape img_array of
             h # w # _ \<Rightarrow>
               (case imwrite_png io img_array of
                  None \<Rightarrow> Inl UnidentifiedImageError
                | Some png \<Rightarrow> Inr (png, int w, int h, ''unknown''))
           | _ \<Rightarrow> Inl UnidentifiedImageError))"

text \<open>
  The Pillow library of \<^verbatim>\<open>src/backend/main.py\<close>: \<^verbatim>\<open>Image.open\<close> gives an image
  or raises; \<^verbatim>\<open>im.convert(mode)\<close> gives the pixels in the requested mode or raises
  (\<open>None\<close>), and the image it returns has that mode and the same size;
  \<^verbatim>\<open>im.save(buf, format="PNG")\<close> gives the PNG bytes or raises.
\<close>

record pil_image =
  format :: "string option"
  mode :: string
  im_width :: nat
  im_height :: nat
  pixels :: "nat list"

record pillow =
  Image_open :: "bytes \<Rightarrow> py_exception + pil_image"
  convert_pixels :: "string \<Rightarrow> pil_image \<Rightarrow> nat list option"
  save_png :: "pil_image \<Rightarrow> bytes option"

definition convert :: "pillow \<Rightarrow> string \<Rightarrow> pil_image \<Rightarrow> py_exception + pil_image" where
  "convert pil m im =
     (case convert_pixels pil m im of
        None \<Rightarrow> Inl OSError
      | Some px \<Rightarrow> Inr (im\<lparr>format := None, mode := m, pixels := px\<rparr>))"

text \<open>\<^verbatim>\<open>to_png_bytes\<close> of \<^verbatim>\<open>src/backend/main.py\<close>: exceptions leave as they are.\<close>

definition to_png_bytes_backend ::
    "pillow \<Rightarrow> bytes \<Rightarrow> py_exception + (bytes \<times> int \<times> int \<times> string)" where
  "to_png_bytes_backend pil raw =
     (case Image_open pil raw of
        Inl e \<Rightarrow> Inl e
      | Inr im0 \<Rightarrow>
          (let fmt = (case format im0 of None \<Rightarrow> ''?'' | Some f \<Rightarrow> if f = [] then ''?'' else f)
           in case convert pil ''RGBA'' im0 of
                Inl e \<Rightarrow> Inl e
              | Inr im \<Rightarrow>
                  (case save_png pil im of
                     None \<Rightarrow> Inl OSError
                   | Some png \<Rightarrow> Inr (png, int (im_width im), int (im_height im), fmt))))"

subsection \<open>Storage manager\<close>

text \<open>\<^verbatim>\<open>build_public_url\<close> of \<^verbatim>\<open>src/main.py\<close>.\<close>

definition build_public_url :: "config \<Rightarrow> path \<Rightarrow> string" where
  "build_public_url cfg file_path =
     (case relative_to file_path (STATIC_DIR cfg) of
        Some rel \<Rightarrow> ''/static/'' @ as_posix rel
      | None \<Rightarrow> ''/api/file/'' @ path_name file_path)"

text \<open>
  What the disk does to one \<^verbatim>\<open>open(file_path, "wb")\<close> and \<^verbatim>\<open>fp.write(png)\<close>:
  nothing wrong, an open that fails (for whatever reason: a missing directory, a
  directory in the way, permissions), or a write that fails after some bytes.
\<close>

datatype disk_fault = NoFault | OpenFault | WriteFault nat

text \<open>The two statements; \<open>Inl\<close> carries the filesystem an \<^verbatim>\<open>OSError\<close> leaves behind.\<close>

definition write_file :: "filesystem \<Rightarrow> path \<Rightarrow> bytes \<Rightarrow> disk_fault \<Rightarrow> filesystem + filesystem" where
  "write_file files file_path png fault =
     (case fault of
        NoFault \<Rightarrow> Inr (files(file_path \<mapsto> File png))
      | OpenFault \<Rightarrow> Inl files
      | WriteFault n \<Rightarrow> Inl (files(file_path \<mapsto> File (take n png))))"

text \<open>
  \<^verbatim>\<open>if path.exists(): path.unlink()\<close> inside \<^verbatim>\<open>try ... except Exception: pass\<close>;
  \<open>unlink_ok\<close> is false when the filesystem refuses the removal. Unlinking a directory
  raises, which is swallowed as well.
\<close>

definition remove_if_exists :: "filesystem \<Rightarrow> path \<Rightarrow> bool \<Rightarrow> filesystem" where
  "remove_if_exists files p unlink_ok =
     (case files p of
        None \<Rightarrow> files
      | Some Dir \<Rightarrow> files
      | Some (File _) \<Rightarrow> if unlink_ok then files(p := None) else files)"

subsection \<open>Metadata store\<close>

text \<open>\<^verbatim>\<open>INSERT INTO images\<close>: \<open>None\<close> is the \<^verbatim>\<open>IntegrityError\<close> of a duplicate primary key.\<close>

definition db_insert :: "image_item list \<Rightarrow> image_item \<Rightarrow> image_item list option" where
  "db_insert rs r = (if id' r \<in> set (map id' rs) then None else Some (rs @ [r]))"

text \<open>\<^verbatim>\<open>SELECT url FROM images WHERE id = ?\<close> with \<^verbatim>\<open>fetchone\<close>.\<close>

definition select_by_id :: "image_item list \<Rightarrow> string \<Rightarrow> image_item option" where
  "select_by_id rs image_id = find (\<lambda>r. id' r = image_id) rs"

text \<open>\<^verbatim>\<open>DELETE FROM images WHERE id = ?\<close>.\<close>

definition db_delete :: "image_item list \<Rightarrow> string \<Rightarrow> image_item list" where
  "db_delete rs image_id = filter (\<lambda>r. id' r \<noteq> image_id) rs"

text \<open>
  SQLite's \<^verbatim>\<open>LIKE\<close> without an \<^verbatim>\<open>ESCAPE\<close> clause: in the pattern \<^verbatim>\<open>%\<close> matches any
  run of characters and \<^verbatim>\<open>_\<close> any one character; other characters match themselves,
  ASCII letters regardless of case.
\<close>

fun sql_like :: "string \<Rightarrow> string \<Rightarrow> bool" where
  "sql_like [] t = (t = [])"
| "sql_like (p # ps) [] = (p = CHR ''%'' \<and> sql_like ps [])"
| "sql_like (p # ps) (c # cs) =
     (if p = CHR ''%'' then sql_like ps (c # cs) \<or> sql_like (p # ps) cs
      else (p = CHR ''_'' \<or> lower_chr p = lower_chr c) \<and> sql_like ps cs)"

text \<open>
  \<^verbatim>\<open>ORDER BY created_at DESC\<close> on a \<^verbatim>\<open>TEXT\<close> column: byte-wise comparison. SQLite
  leaves the order of rows with equal keys open; the model keeps a fixed one.
\<close>

definition order_by_created_at_desc :: "image_item list \<Rightarrow> image_item list" where
  "order_by_created_at_desc rs = rev (sort_key created_at rs)"

subsection \<open>Upload pipeline\<close>

text \<open>
  One submitted file: the client's filename and what \<^verbatim>\<open>await f.read()\<close> returns.
  With it comes what the environment answers while the file is processed: the
  identifier \<^verbatim>\<open>uuid.uuid4().hex\<close>, the timestamp
  \<^verbatim>\<open>datetime.datetime.utcnow().isoformat()\<close>, and the behaviour of the disk.
  The framework builds an \<^verbatim>\<open>UploadFile\<close> only for a form part that carries a
  filename, so the filename is a string. A database connection that cannot be opened
  and a failing \<^verbatim>\<open>con.commit()\<close> are not modelled.
\<close>

record upload_file =
  filename :: string
  content :: bytes

record draw =
  uuid4_hex :: string
  utcnow_iso :: string
  disk :: disk_fault

text \<open>
  The body of the \<^verbatim>\<open>for f in files\<close> loop of \<^verbatim>\<open>upload\<close> in \<^verbatim>\<open>src/main.py\<close>, on
  the state (table and filesystem) and the list \<^verbatim>\<open>out\<close>. Each \<^verbatim>\<open>continue\<close> is a
  branch that returns without a record.
\<close>

definition upload_one ::
    "config \<Rightarrow> imageio \<Rightarrow> world \<times> image_item list \<Rightarrow> upload_file \<times> draw \<Rightarrow> world \<times> image_item list" where
  "upload_one cfg io st fd =
     (case (st, fd) of ((w, out), (f, d)) \<Rightarrow>
        let nm = client_name (filename f) in
        if ext_of nm = [] then (w, out)
        else
          (case to_png_bytes io (content f) of
             Inl _ \<Rightarrow> (w, out)
           | Inr (png, wd, ht, _) \<Rightarrow>
               let iid = uuid4_hex d;
                   file_path = path_div (IMAGE_DIR cfg) (iid @ ''.png'')
               in (case write_file (fs w) file_path png (disk d) of
                     Inl files' \<Rightarrow> (w\<lparr>fs := files'\<rparr>, out)
                   | Inr files' \<Rightarrow>
                       let u = build_public_url cfg file_path;
                           item = \<lparr>id' = iid, name = nm, width = wd, height = ht, url = u,
                                   created_at = utcnow_iso d\<rparr>
                       in (case db_insert (rows w) item of
                             None \<Rightarrow> (w\<lparr>fs := files'\<rparr>, out)
                           | Some rows' \<Rightarrow> (w\<lparr>rows := rows', fs := files'\<rparr>, out @ [item])))))"

fun upload_loop ::
    "config \<Rightarrow> imageio \<Rightarrow> world \<times> image_item list \<Rightarrow> (upload_file \<times> draw) list \<Rightarrow> world \<times> image_item list" where
  "upload_loop cfg io st [] = st"
| "upload_loop cfg io st (fd # fds) = upload_loop cfg io (upload_one cfg io st fd) fds"

text \<open>\<^verbatim>\<open>upload\<close> of \<^verbatim>\<open>src/main.py\<close>: the state afterwards and what the caller gets.\<close>

definition upload ::
    "config \<Rightarrow> imageio \<Rightarrow> world \<Rightarrow> (upload_file \<times> draw) list \<Rightarrow> world \<times> (py_exception + image_item list)" where
  "upload cfg io w files =
     (if files = [] then (w, Inl (HTTPException 400 ''No files provided.''))
      else case upload_loop cfg io (w, []) files of (w', out) \<Rightarrow> (w', Inr out))"

text \<open>
  The loop body and \<^verbatim>\<open>upload\<close> of \<^verbatim>\<open>src/backend/main.py\<close>: the Pillow adapter, the
  longer extension list, and a URL written out by hand.
\<close>

definition upload_one_backend ::
    "config \<Rightarrow> pillow \<Rightarrow> world \<times> image_item list \<Rightarrow> upload_file \<times> draw \<Rightarrow> world \<times> image_item list" where
  "upload_one_backend cfg pil st fd =
     (case (st, fd) of ((w, out), (f, d)) \<Rightarrow>
        let nm = client_name (filename f) in
        if ext_of_backend nm = [] then (w, out)
        else
          (case to_png_bytes_backend pil (content f) of
             Inl _ \<Rightarrow> (w, out)
           | Inr (png, wd, ht, _) \<Rightarrow>
               let iid = uuid4_hex d;
                   file_path = path_div (IMG_DIR_backend cfg) (iid @ ''.png'')
               in (case write_file (fs w) file_path png (disk d) of
                     Inl files' \<Rightarrow> (w\<lparr>fs := files'\<rparr>, out)
                   | Inr files' \<Rightarrow>
                       let u = ''/static/images/'' @ iid @ ''.png'';
                           item = \<lparr>id' = iid, name = nm, width = wd, height = ht, url = u,
                                   created_at = utcnow_iso d\<rparr>
                       in (case db_insert (rows w) item of
                             None \<Rightarrow> (w\<lparr>fs := files'\<rparr>, out)
                           | Some rows' \<Rightarrow> (w\<lparr>rows := rows', fs := files'\<rparr>, out @ [item])))))"

fun upload_loop_backend ::
    "config \<Rightarrow> pillow \<Rightarrow> world \<times> image_item list \<Rightarrow> (upload_file \<times> draw) list \<Rightarrow> world \<times> image_item list" where
  "upload_loop_backend cfg pil st [] = st"
| "upload_loop_backend cfg pil st (fd # fds) =
     upload_loop_backend cfg pil (upload_one_backend cfg pil st fd) fds"

definition upload_backend ::
    "config \<Rightarrow> pillow \<Rightarrow> world \<Rightarrow> (upload_file \<times> draw) list \<Rightarrow> world \<times> (py_exception + image_item list)" where
  "upload_backend cfg pil w files =
     (if files = [] then (w, Inl (HTTPException 400 ''No files provided.''))
      else case upload_loop_backend cfg pil (w, []) files of (w', out) \<Rightarrow> (w', Inr out))"

subsection \<open>Listing, deletion, file serving\<close>

text \<open>
  \<^verbatim>\<open>list_images\<close> (the same in both files). \<^verbatim>\<open>if search\<close> is false for an absent
  and for an empty argument.
\<close>

definition list_images :: "world \<Rightarrow> string option \<Rightarrow> image_item list" where
  "list_images w search =
     (case search of
        None \<Rightarrow> order_by_created_at_desc (rows w)
      | Some s \<Rightarrow>
          if s = [] then order_by_created_at_desc (rows w)
          else
            (let like = ''%'' @ lower s @ ''%''
             in order_by_created_at_desc (filter (\<lambda>r. sql_like like (lower (name r))) (rows w))))"

text \<open>
  \<^verbatim>\<open>delete_image\<close> of \<^verbatim>\<open>src/main.py\<close>. The result \<open>Inr True\<close> is the body
  \<^verbatim>\<open>{"ok": True}\<close>.
\<close>

definition delete_image ::
    "config \<Rightarrow> world \<Rightarrow> string \<Rightarrow> bool \<Rightarrow> world \<times> (py_exception + bool)" where
  "delete_image cfg w image_id unlink_ok =
     (case select_by_id (rows w) image_id of
        None \<Rightarrow> (w, Inl (HTTPException 404 ''Not found''))
      | Some row \<Rightarrow>
          let w1 = w\<lparr>rows := db_delete (rows w) image_id\<rparr>;
              u = url row;
              p = (if startswith u ''/static/''
                   then Some (path_div (STATIC_DIR cfg) (drop (length ''/static/'') u))
                   else if startswith u ''/api/file/''
                   then Some (path_div (IMAGE_DIR cfg) (last_piece (CHR ''/'') u))
                   else None)
          in (case p of
                None \<Rightarrow> (w1, Inr True)
              | Some pth \<Rightarrow> (w1\<lparr>fs := remove_if_exists (fs w1) pth unlink_ok\<rparr>, Inr True)))"

text \<open>\<^verbatim>\<open>delete_image\<close> of \<^verbatim>\<open>src/backend/main.py\<close>.\<close>

definition delete_image_backend ::
    "config \<Rightarrow> world \<Rightarrow> string \<Rightarrow> bool \<Rightarrow> world \<times> (py_exception + bool)" where
  "delete_image_backend cfg w image_id unlink_ok =
     (case select_by_id (rows w) image_id of
        None \<Rightarrow> (w, Inl (HTTPException 404 ''Not found''))
      | Some row \<Rightarrow>
          let w1 = w\<lparr>rows := db_delete (rows w) image_id\<rparr>;
              pth = path_div (BASE_DIR cfg) (lstrip_slash (url row))
          in (w1\<lparr>fs := remove_if_exists (fs w1) pth unlink_ok\<rparr>, Inr True))"

text \<open>
  \<^verbatim>\<open>serve_file\<close> of \<^verbatim>\<open>src/main.py\<close>: the body and the media type of the
  \<^verbatim>\<open>FileResponse\<close>, which raises when the path is not a regular file.
\<close>

definition serve_file :: "config \<Rightarrow> world \<Rightarrow> string \<Rightarrow> py_exception + (bytes \<times> string)" where
  "serve_file cfg w nm =
     (let pth = path_div (IMAGE_DIR cfg) nm
      in case fs w pth of
           None \<Rightarrow> Inl (HTTPException 404 ''Not found'')
         | Some Dir \<Rightarrow> Inl RuntimeError
         | Some (File b) \<Rightarrow> Inr (b, ''image/png''))"

subsection \<open>Vocabulary of the specification\<close>

text \<open>
  A filename has a supported extension when, lowercased, it ends with one of the
  extensions of the allow-list.
\<close>

definition has_supported_extension :: "string \<Rightarrow> bool" where
  "has_supported_extension fn = (\<exists>e\<in>set SUPPORTED. endswith (lower fn) e)"



text \<open>The part of the loop state the caller and the table see.\<close>

definition table_and_out :: "world \<times> image_item list \<Rightarrow> image_item list \<times> image_item list" where
  "table_and_out st = (rows (fst st), snd st)"

text \<open>
  A path lies beneath a root when the parts of the root are a proper initial segment of
  its parts: the lexical notion of \<^verbatim>\<open>relative_to\<close>, without the root itself.
\<close>

definition lies_beneath :: "path \<Rightarrow> path \<Rightarrow> bool" where
  "lies_beneath p root = strict_prefix root p"

text \<open>
  A name contains a search string case-insensitively when the lowercased string occurs
  in the lowercased name; a listing is newest first when the timestamps do not increase
  along it.
\<close>

definition contains_ci :: "string \<Rightarrow> string \<Rightarrow> bool" where
  "contains_ci nm s = sublist (lower s) (lower nm)"

definition created_at_descending :: "image_item list \<Rightarrow> bool" where
  "created_at_descending rs = sorted_wrt (\<lambda>a b. created_at b \<le> created_at a) rs"

text \<open>
  An array carries an alpha channel when it has a third dimension of two (grey and
  alpha) or four (red, green, blue and alpha) channels.
\<close>

definition has_alpha_channel :: "ndarray \<Rightarrow> bool" where
  "has_alpha_channel arr = (case shape arr of [h, w, c] \<Rightarrow> c = 2 \<or> c = 4 | _ \<Rightarrow> False)"

subsection \<open>Sample configuration, codec and state\<close>

text \<open>
  A configuration with the storage root under the static tree, and a toy codec: the
  first two bytes of an input are the number of rows and of columns of a three-channel
  image, inputs shorter than that are not images.
\<close>

definition demo_cfg :: config where
  "demo_cfg = \<lparr>BASE_DIR = [''/'', ''app''], IMAGE_DIR_env = None\<rparr>"

definition demo_io :: imageio where
  "demo_io = \<lparr>imread = (\<lambda>raw. case raw of
                         a # b # rest \<Rightarrow> Some \<lparr>shape = [unat a, unat b, 3], data = map unat rest\<rparr>
                       | _ \<Rightarrow> None),
              imwrite_png = (\<lambda>arr. Some (map of_nat (shape arr @ data arr)))\<rparr>"

definition demo_world :: world where
  "demo_world = \<lparr>rows = [], fs = Map.empty\<rparr>"

text \<open>
  The same toy codec for Pillow, and a batch of two files with path components in the
  name and mixed case in the extension.
\<close>

definition demo_pil :: pillow where
  "demo_pil = \<lparr>Image_open = (\<lambda>raw. case raw of
                         a # b # rest \<Rightarrow> Inr \<lparr>format = Some ''BMP'', mode = ''RGB'', im_width = unat b,
                                                im_height = unat a, pixels = map unat rest\<rparr>
                       | _ \<Rightarrow> Inl UnidentifiedImageError),
              convert_pixels = (\<lambda>m im. Some (pixels im)),
              save_png = (\<lambda>im. Some (map of_nat (im_height im # im_width im # pixels im)))\<rparr>"

definition demo_files :: "(upload_file \<times> draw) list" where
  "demo_files =
     [(\<lparr>filename = ''textures/Icon.PNG'', content = [2, 3, 9]\<rparr>,
       \<lparr>uuid4_hex = ''0a'', utcnow_iso = ''2024-01-01T00:00:00'', disk = NoFault\<rparr>),
      (\<lparr>filename = ''b.jpeg'', content = [1, 1]\<rparr>,
       \<lparr>uuid4_hex = ''0b'', utcnow_iso = ''2024-01-01T00:00:00.000250'', disk = NoFault\<rparr>)]"

text \<open>A file with a supported name whose single byte is no image, and one more answer of the environment.\<close>

definition demo_bad_file :: upload_file where
  "demo_bad_file = \<lparr>filename = ''broken.png'', content = [7]\<rparr>"

definition demo_draw :: draw where
  "demo_draw = \<lparr>uuid4_hex = ''0c'', utcnow_iso = ''2024-01-01T00:00:01'', disk = NoFault\<rparr>"

text \<open>
  A store with two records, of which only the first still has its file.
\<close>

definition demo_item_a :: image_item where
  "demo_item_a = \<lparr>id' = ''0a'', name = ''Icon.PNG'', width = 3, height = 2,
                   url = ''/static/images/0a.png'', created_at = ''2024-01-01T00:00:00''\<rparr>"

definition demo_item_b :: image_item where
  "demo_item_b = \<lparr>id' = ''0b'', name = ''b.jpeg'', width = 1, height = 1,
                   url = ''/static/images/0b.png'', created_at = ''2024-01-01T00:00:00.000250''\<rparr>"

definition demo_store :: world where
  "demo_store = \<lparr>rows = [demo_item_a, demo_item_b],
                  fs = [[''/'', ''app'', ''static'', ''images'', ''0a.png''] \<mapsto> File [2, 3, 3, 9]]\<rparr>"

text \<open>
  A configuration with the storage root on a separate volume, where the database file
  sits beside the images.
\<close>

definition demo_cfg_disk :: config where
  "demo_cfg_disk = \<lparr>BASE_DIR = [''/'', ''app''], IMAGE_DIR_env = Some ''/data/images''\<rparr>"

definition demo_disk_world :: world where
  "demo_disk_world = \<lparr>rows = [], fs = [[''/'', ''data'', ''images'', ''images.db''] \<mapsto> File [83, 81, 76]]\<rparr>"

section \<open>Properties\<close>

subsection \<open>Splitting and classification\<close>

lemma split_chr_ne [simp]: "split_chr sep s \<noteq> []" by (induction s) (auto split: list.splits)

lemma split_chr_no_sep: "sep \<notin> set s \<Longrightarrow> split_chr sep s = [s]"
  by (induction s) auto

lemma last_split_chr_Cons: "last (split_chr sep (c # cs)) = (if sep \<in> set cs then last (split_chr sep cs) else if c = sep then cs else c # cs)"
proof (cases "sep \<in> set cs")
  case False then show ?thesis by (simp add: split_chr_no_sep)
next
  case True
  then have "length (split_chr sep cs) \<ge> 2" by (induction cs) (auto split: list.splits)
  then obtain p q ps where "split_chr sep cs = p # q # ps" by (cases "split_chr sep cs"; cases "tl (split_chr sep cs)") auto
  then show ?thesis using True by auto
qed

lemma last_piece_Cons: "last_piece sep (c # cs) = (if sep \<in> set cs then last_piece sep cs else if c = sep then cs else c # cs)"
  unfolding last_piece_def by (rule last_split_chr_Cons)

lemma last_piece_decomp: "\<exists>pre. s = pre @ last_piece sep s \<and> sep \<notin> set (last_piece sep s) \<and> (pre = [] \<or> last pre = sep)"
proof (induction s)
  case Nil show ?case by (simp add: last_piece_def)
next
  case (Cons c cs)
  then obtain pre where p: "cs = pre @ last_piece sep cs" "sep \<notin> set (last_piece sep cs)" "pre = [] \<or> last pre = sep" by blast
  show ?case
  proof (cases "sep \<in> set cs")
    case True
    then have "pre \<noteq> []" using p by auto
    then have "c # cs = (c # pre) @ last_piece sep (c # cs) \<and> sep \<notin> set (last_piece sep (c # cs)) \<and> (c # pre = [] \<or> last (c # pre) = sep)"
       using p True by (simp add: last_piece_Cons)
    then show ?thesis by blast
  next
    case False
    show ?thesis
    proof (cases "c = sep")
      case True
      then have "c # cs = [c] @ last_piece sep (c # cs) \<and> sep \<notin> set (last_piece sep (c # cs)) \<and> ([c] = [] \<or> last [c] = sep)"
        using False by (simp add: last_piece_Cons)
      then show ?thesis by blast
    next
      case F2: False
      then have "c # cs = [] @ last_piece sep (c # cs) \<and> sep \<notin> set (last_piece sep (c # cs))"
        using False by (simp add: last_piece_Cons)
      then show ?thesis by blast
    qed
  qed
qed

lemma lower_chr_fixes: "of_char sep \<notin> {65..90::nat} \<Longrightarrow> of_char sep \<notin> {97..122::nat} \<Longrightarrow> lower_chr c = sep \<longleftrightarrow> c = sep"
  by (auto simp: lower_chr_def Let_def)

lemma lower_append [simp]: "lower (xs @ ys) = lower xs @ lower ys" by (simp add: lower_def)

text \<open>
  An extension without the separator ends the lowercased string exactly when it ends the
  lowercased last piece: stripping the path components does not change the classification.
\<close>

lemma endswith_last_piece:
  assumes sep: "of_char sep \<notin> {65..90::nat}" "of_char sep \<notin> {97..122::nat}" and e: "sep \<notin> set e"
  shows "endswith (lower (last_piece sep s)) e \<longleftrightarrow> endswith (lower s) e"
proof -
  obtain pre where p: "s = pre @ last_piece sep s" "pre = [] \<or> last pre = sep"
    using last_piece_decomp[of s sep] by blast
  let ?t = "last_piece sep s"
  have ls: "lower s = lower pre @ lower ?t" using p(1) lower_append by metis
  show ?thesis
  proof
    assume "endswith (lower ?t) e"
    then show "endswith (lower s) e" unfolding endswith_def using ls by (simp add: suffix_appendI)
  next
    assume "endswith (lower s) e"
    then have "suffix e (lower pre @ lower ?t)" unfolding endswith_def using ls by simp
    then have "suffix e (lower ?t) \<or> (\<exists>xs'. e = xs' @ lower ?t \<and> suffix xs' (lower pre))"
      by (simp only: suffix_append)
    then consider "suffix e (lower ?t)" | xs' where "e = xs' @ lower ?t" "suffix xs' (lower pre)" "xs' \<noteq> []"
      by (cases "suffix e (lower ?t)") fastforce+
    then show "endswith (lower ?t) e"
    proof cases
      case 1 then show ?thesis by (simp add: endswith_def)
    next
      case 2
      then have ne: "pre \<noteq> []" by (auto simp: lower_def)
      then have "last pre = sep" using p(2) by simp
      moreover have "lower_chr sep = sep" using lower_chr_fixes[OF sep, of sep] by simp
      ultimately have "last (lower pre) = sep" using ne by (simp add: lower_def last_map)
      moreover have "last xs' = last (lower pre)" using 2(2,3) by (auto simp: suffix_def)
      ultimately have "sep \<in> set xs'" using 2(3) last_in_set by metis
      then show ?thesis using e 2(1) by simp
    qed
  qed
qed

lemma ext_of_in_empty_iff: "[] \<notin> set es \<Longrightarrow> ext_of_in es low = [] \<longleftrightarrow> (\<forall>e\<in>set es. \<not> endswith low e)"
  by (induction es) auto

lemma ext_of_in_sep_free:
  assumes sep: "of_char sep \<notin> {65..90::nat}" "of_char sep \<notin> {97..122::nat}" and e: "\<forall>e\<in>set es. sep \<notin> set e"
  shows "ext_of_in es (lower (last_piece sep s)) = ext_of_in es (lower s)"
  using e by (induction es) (auto simp: endswith_last_piece[OF sep])

lemma ext_of_client_name: "ext_of (client_name f) = ext_of f"
  unfolding ext_of_def client_name_def
  by (subst ext_of_in_sep_free; (subst ext_of_in_sep_free)?; simp add: SUPPORTED_def)

lemma ext_of_backend_client_name: "ext_of_backend (client_name f) = ext_of_backend f"
  unfolding ext_of_backend_def client_name_def
  by (subst ext_of_in_sep_free; (subst ext_of_in_sep_free)?; simp add: SUPPORTED_backend_def)

lemma ext_of_empty_iff: "ext_of f = [] \<longleftrightarrow> (\<forall>e\<in>set SUPPORTED. \<not> endswith (lower f) e)"
  unfolding ext_of_def by (rule ext_of_in_empty_iff) (simp add: SUPPORTED_def)

lemma ext_of_backend_empty_iff: "ext_of_backend f = [] \<longleftrightarrow> (\<forall>e\<in>set SUPPORTED_backend. \<not> endswith (lower f) e)"
  unfolding ext_of_backend_def by (rule ext_of_in_empty_iff) (simp add: SUPPORTED_backend_def)

subsection \<open>Upload: classification and the empty batch\<close>

lemma upload_loop_append:
  "upload_loop cfg io st (xs @ ys) = upload_loop cfg io (upload_loop cfg io st xs) ys"
  by (induction xs arbitrary: st) auto

lemma upload_one_unsupported:
  "ext_of (filename f) = [] \<Longrightarrow> upload_one cfg io (w, out) (f, d) = (w, out)"
  by (simp add: upload_one_def ext_of_client_name)

lemma has_supported_extension_iff: "has_supported_extension fn \<longleftrightarrow> ext_of fn \<noteq> []"
  by (simp add: has_supported_extension_def ext_of_empty_iff)

text \<open>
  Claim C2. A file whose filename, lowercased, ends with none of the supported
  extensions leaves the table, the filesystem and the output as they were, whatever its
  bytes are; the batch gives the same result as the batch without that file, and a batch
  of this file alone gives an empty success response.
\<close>

theorem upload_unsupported_extension:
  assumes "\<not> has_supported_extension (filename f)"
  shows "upload_one cfg io (w, out) (f\<lparr>content := c\<rparr>, d) = (w, out)
       \<and> upload_loop cfg io (w, out) (pre @ (f\<lparr>content := c\<rparr>, d) # post) = upload_loop cfg io (w, out) (pre @ post)
       \<and> upload cfg io w [(f\<lparr>content := c\<rparr>, d)] = (w, Inr [])"
proof -
  have e: "ext_of (filename (f\<lparr>content := c\<rparr>)) = []"
    using assms by (simp add: has_supported_extension_iff)
  have one: "\<And>w out. upload_one cfg io (w, out) (f\<lparr>content := c\<rparr>, d) = (w, out)"
    using e by (rule upload_one_unsupported)
  have "upload_loop cfg io (w, out) (pre @ (f\<lparr>content := c\<rparr>, d) # post) = upload_loop cfg io (w, out) (pre @ post)"
    by (cases "upload_loop cfg io (w, out) pre") (simp add: upload_loop_append one)
  moreover have "upload cfg io w [(f\<lparr>content := c\<rparr>, d)] = (w, Inr [])"
    by (simp add: upload_def one)
  ultimately show ?thesis using one by simp
qed

text \<open>The hypothesis of C2 at a text file that carries the first bytes of a PNG.\<close>

theorem upload_unsupported_extension_witness:
  "\<not> has_supported_extension ''notes.txt''
   \<and> upload demo_cfg demo_io demo_world
        [(\<lparr>filename = ''notes.txt'', content = [137, 80, 78, 71]\<rparr>,
          \<lparr>uuid4_hex = ''00ff'', utcnow_iso = ''2024-01-01T00:00:00'', disk = NoFault\<rparr>)]
      = (demo_world, Inr [])"
proof -
  have h: "\<not> has_supported_extension (filename \<lparr>filename = ''notes.txt'', content = []\<rparr>)"
    unfolding has_supported_extension_iff by code_simp
  show ?thesis
    using h upload_unsupported_extension [where f = "\<lparr>filename = ''notes.txt'', content = []\<rparr>"
        and cfg = demo_cfg and io = demo_io and w = demo_world and c = "[137, 80, 78, 71]"
        and d = "\<lparr>uuid4_hex = ''00ff'', utcnow_iso = ''2024-01-01T00:00:00'', disk = NoFault\<rparr>", OF h]
    by simp
qed


subsection \<open>Upload: accepted files\<close>






subsection \<open>Upload: skipped files\<close>

lemma upload_one_table_and_out:
  "table_and_out st = table_and_out st' \<Longrightarrow>
   table_and_out (upload_one cfg io st fd) = table_and_out (upload_one cfg io st' fd)"
  by (cases st; cases st'; cases fd)
     (auto simp: upload_one_def table_and_out_def write_file_def Let_def
           split: sum.splits option.splits prod.splits disk_fault.splits)

lemma upload_loop_table_and_out:
  "table_and_out st = table_and_out st' \<Longrightarrow>
   table_and_out (upload_loop cfg io st fds) = table_and_out (upload_loop cfg io st' fds)"
proof (induction fds arbitrary: st st')
  case Nil then show ?case by simp
next
  case (Cons fd fds)
  show ?case using Cons.IH[OF upload_one_table_and_out[OF Cons.prems]] by simp
qed

lemma upload_one_skipped:
  "isl (to_png_bytes io (content f)) \<or> disk d \<noteq> NoFault \<Longrightarrow>
   table_and_out (upload_one cfg io st (f, d)) = table_and_out st"
  by (cases st; cases "disk d")
     (auto simp: upload_one_def table_and_out_def write_file_def Let_def split: sum.splits option.splits prod.splits)

lemma upload_loop_skipped:
  assumes "isl (to_png_bytes io (content f)) \<or> disk d \<noteq> NoFault"
  shows "table_and_out (upload_loop cfg io st (pre @ (f, d) # post)) =
         table_and_out (upload_loop cfg io st (pre @ post))"
  by (simp add: upload_loop_append upload_loop_table_and_out[OF upload_one_skipped[OF assms]])

lemma upload_loop_backend_append:
  "upload_loop_backend cfg pil st (xs @ ys) = upload_loop_backend cfg pil (upload_loop_backend cfg pil st xs) ys"
  by (induction xs arbitrary: st) auto

lemma upload_one_backend_table_and_out:
  "table_and_out st = table_and_out st' \<Longrightarrow>
   table_and_out (upload_one_backend cfg pil st fd) = table_and_out (upload_one_backend cfg pil st' fd)"
  by (cases st; cases st'; cases fd)
     (auto simp: upload_one_backend_def table_and_out_def write_file_def Let_def
           split: sum.splits option.splits prod.splits disk_fault.splits)

lemma upload_loop_backend_table_and_out:
  "table_and_out st = table_and_out st' \<Longrightarrow>
   table_and_out (upload_loop_backend cfg pil st fds) = table_and_out (upload_loop_backend cfg pil st' fds)"
proof (induction fds arbitrary: st st')
  case Nil then show ?case by simp
next
  case (Cons fd fds)
  show ?case using Cons.IH[OF upload_one_backend_table_and_out[OF Cons.prems]] by simp
qed

lemma upload_one_backend_skipped:
  "isl (to_png_bytes_backend pil (content f)) \<or> disk d \<noteq> NoFault \<Longrightarrow>
   table_and_out (upload_one_backend cfg pil st (f, d)) = table_and_out st"
  by (cases st; cases "disk d")
     (auto simp: upload_one_backend_def table_and_out_def write_file_def Let_def split: sum.splits option.splits prod.splits)

lemma upload_loop_backend_skipped:
  assumes "isl (to_png_bytes_backend pil (content f)) \<or> disk d \<noteq> NoFault"
  shows "table_and_out (upload_loop_backend cfg pil st (pre @ (f, d) # post)) =
         table_and_out (upload_loop_backend cfg pil st (pre @ post))"
  by (simp add: upload_loop_backend_append
        upload_loop_backend_table_and_out[OF upload_one_backend_skipped[OF assms]])


lemma upload_returns:
  "files \<noteq> [] \<Longrightarrow> upload cfg io w files =
     (fst (upload_loop cfg io (w, []) files), Inr (snd (upload_loop cfg io (w, []) files)))"
  by (simp add: upload_def split: prod.splits)

lemma upload_backend_returns:
  "files \<noteq> [] \<Longrightarrow> upload_backend cfg pil w files =
     (fst (upload_loop_backend cfg pil (w, []) files), Inr (snd (upload_loop_backend cfg pil (w, []) files)))"
  by (simp add: upload_backend_def split: prod.splits)

text \<open>
  Claim C3. A file for which the codec adapter fails (in particular one whose bytes the
  codec cannot decode) or for which the disk faults while the canonical file is written
  adds no record and no row, in both implementations; the files after it are processed
  as if it had not been submitted, and the handler returns its list normally: the result
  is the success branch, never an exception.
\<close>

theorem upload_skips_failures:
  "(isl (to_png_bytes io (content f)) \<or> disk d \<noteq> NoFault \<longrightarrow>
      table_and_out (upload_one cfg io (w, out) (f, d)) = (rows w, out)
    \<and> (\<exists>w'. upload cfg io w (pre @ (f, d) # post) =
              (w', Inr (snd (upload_loop cfg io (w, []) (pre @ post))))
            \<and> rows w' = rows (fst (upload_loop cfg io (w, []) (pre @ post)))))
 \<and> (isl (to_png_bytes_backend pil (content f)) \<or> disk d \<noteq> NoFault \<longrightarrow>
      table_and_out (upload_one_backend cfg pil (w, out) (f, d)) = (rows w, out)
    \<and> (\<exists>w'. upload_backend cfg pil w (pre @ (f, d) # post) =
              (w', Inr (snd (upload_loop_backend cfg pil (w, []) (pre @ post))))
            \<and> rows w' = rows (fst (upload_loop_backend cfg pil (w, []) (pre @ post)))))"
proof (intro conjI impI)
  assume a: "isl (to_png_bytes io (content f)) \<or> disk d \<noteq> NoFault"
  show "table_and_out (upload_one cfg io (w, out) (f, d)) = (rows w, out)"
    using upload_one_skipped[OF a, of cfg "(w, out)"] by (simp add: table_and_out_def)
  have "table_and_out (upload_loop cfg io (w, []) (pre @ (f, d) # post)) =
        table_and_out (upload_loop cfg io (w, []) (pre @ post))"
    by (rule upload_loop_skipped[OF a])
  then show "\<exists>w'. upload cfg io w (pre @ (f, d) # post) =
              (w', Inr (snd (upload_loop cfg io (w, []) (pre @ post))))
            \<and> rows w' = rows (fst (upload_loop cfg io (w, []) (pre @ post)))"
    by (simp add: upload_returns table_and_out_def)
next
  assume a: "isl (to_png_bytes_backend pil (content f)) \<or> disk d \<noteq> NoFault"
  show "table_and_out (upload_one_backend cfg pil (w, out) (f, d)) = (rows w, out)"
    using upload_one_backend_skipped[OF a, of cfg "(w, out)"] by (simp add: table_and_out_def)
  have "table_and_out (upload_loop_backend cfg pil (w, []) (pre @ (f, d) # post)) =
        table_and_out (upload_loop_backend cfg pil (w, []) (pre @ post))"
    by (rule upload_loop_backend_skipped[OF a])
  then show "\<exists>w'. upload_backend cfg pil w (pre @ (f, d) # post) =
              (w', Inr (snd (upload_loop_backend cfg pil (w, []) (pre @ post))))
            \<and> rows w' = rows (fst (upload_loop_backend cfg pil (w, []) (pre @ post)))"
    by (simp add: upload_backend_returns table_and_out_def)
qed


text \<open>The hypotheses of C3 at an undecodable file with a supported name, between two valid ones.\<close>

theorem upload_skips_failures_witness:
  "isl (to_png_bytes demo_io (content demo_bad_file))
   \<and> isl (to_png_bytes_backend demo_pil (content demo_bad_file))
   \<and> has_supported_extension (filename demo_bad_file)
   \<and> table_and_out (upload_one demo_cfg demo_io (demo_world, []) (demo_bad_file, demo_draw)) = ([], [])
   \<and> (\<exists>w'. upload demo_cfg demo_io demo_world ([hd demo_files] @ (demo_bad_file, demo_draw) # tl demo_files) =
              (w', Inr (snd (upload_loop demo_cfg demo_io (demo_world, []) ([hd demo_files] @ tl demo_files)))))
   \<and> (\<exists>w'. upload_backend demo_cfg demo_pil demo_world ([hd demo_files] @ (demo_bad_file, demo_draw) # tl demo_files) =
              (w', Inr (snd (upload_loop_backend demo_cfg demo_pil (demo_world, []) ([hd demo_files] @ tl demo_files)))))"
proof -
  have h1: "isl (to_png_bytes demo_io (content demo_bad_file))"
    by (simp add: to_png_bytes_def demo_io_def demo_bad_file_def)
  have h2: "isl (to_png_bytes_backend demo_pil (content demo_bad_file))"
    by (simp add: to_png_bytes_backend_def demo_pil_def demo_bad_file_def)
  have h3: "has_supported_extension (filename demo_bad_file)"
    by code_simp
  have r: "rows demo_world = []" by (simp add: demo_world_def)
  show ?thesis
    using h1 h2 h3 r
      upload_skips_failures [where io = demo_io and pil = demo_pil and f = demo_bad_file
        and d = demo_draw and cfg = demo_cfg and w = demo_world and out = "[]"
        and pre = "[hd demo_files]" and post = "tl demo_files"]
    by auto
qed

subsection \<open>Deletion\<close>

lemma select_by_id_None_iff: "select_by_id rs i = None \<longleftrightarrow> i \<notin> id' ` set rs"
  by (auto simp: select_by_id_def find_None_iff)

lemma select_by_id_Some: "select_by_id rs i = Some r \<Longrightarrow> r \<in> set rs \<and> id' r = i"
  by (auto simp: select_by_id_def find_Some_iff)

lemma db_delete_ids: "id' ` set (db_delete rs i) = id' ` set rs - {i}"
  by (auto simp: db_delete_def)

lemma db_delete_absent: "i \<notin> id' ` set rs \<Longrightarrow> db_delete rs i = rs"
  by (induction rs) (auto simp: db_delete_def)

lemma set_order_by_created_at_desc [simp]: "set (order_by_created_at_desc rs) = set rs"
  by (simp add: order_by_created_at_desc_def)

lemma list_images_subset: "set (list_images w search) \<subseteq> set (rows w)"
  by (auto simp: list_images_def Let_def split: option.splits)

lemma delete_image_known:
  assumes "image_id \<in> id' ` set (rows w)"
  shows "\<exists>files'. delete_image cfg w image_id ok =
           (\<lparr>rows = db_delete (rows w) image_id, fs = files'\<rparr>, Inr True)
         \<and> (\<forall>p. files' p = fs w p \<or> files' p = None)"
proof -
  from assms obtain row where r: "select_by_id (rows w) image_id = Some row"
    using select_by_id_None_iff[of "rows w" image_id] by (cases "select_by_id (rows w) image_id") auto
  show ?thesis
    using r by (cases w) (auto simp: delete_image_def Let_def remove_if_exists_def
          split: option.splits fs_node.splits)
qed

lemma delete_image_unknown:
  assumes "image_id \<notin> id' ` set (rows w)"
  shows "delete_image cfg w image_id ok = (w, Inl (HTTPException 404 ''Not found''))"
  using assms select_by_id_None_iff[of "rows w" image_id] by (simp add: delete_image_def)

lemma delete_image_backend_known:
  assumes "image_id \<in> id' ` set (rows w)"
  shows "\<exists>files'. delete_image_backend cfg w image_id ok =
           (\<lparr>rows = db_delete (rows w) image_id, fs = files'\<rparr>, Inr True)
         \<and> (\<forall>p. files' p = fs w p \<or> files' p = None)"
proof -
  from assms obtain row where r: "select_by_id (rows w) image_id = Some row"
    using select_by_id_None_iff[of "rows w" image_id] by (cases "select_by_id (rows w) image_id") auto
  show ?thesis
    using r by (cases w) (auto simp: delete_image_backend_def Let_def remove_if_exists_def
          split: option.splits fs_node.splits)
qed

lemma delete_image_backend_unknown:
  assumes "image_id \<notin> id' ` set (rows w)"
  shows "delete_image_backend cfg w image_id ok = (w, Inl (HTTPException 404 ''Not found''))"
  using assms select_by_id_None_iff[of "rows w" image_id] by (simp add: delete_image_backend_def)

text \<open>
  Claim C5. Deleting an identifier that is in the table succeeds and leaves the table
  without the rows of that identifier: no listing, with or without a search string,
  shows it, the lookup by identifier finds nothing, and a second delete answers 404 and
  changes nothing. Deleting an identifier that is not in the table answers 404 and
  returns the state as it was. Both implementations. (Neither file has a route that
  reads one record; the only lookup by identifier is the \<^verbatim>\<open>SELECT\<close> of
  \<^verbatim>\<open>delete_image\<close>, which is \<^const>\<open>select_by_id\<close>.)
\<close>

theorem delete_image_removes:
  "(image_id \<in> id' ` set (rows w) \<longrightarrow>
      (\<exists>w1. delete_image cfg w image_id ok = (w1, Inr True)
         \<and> rows w1 = filter (\<lambda>r. id' r \<noteq> image_id) (rows w)
         \<and> image_id \<notin> id' ` set (list_images w1 search)
         \<and> select_by_id (rows w1) image_id = None
         \<and> delete_image cfg w1 image_id ok' = (w1, Inl (HTTPException 404 ''Not found'')))
    \<and> (\<exists>w1. delete_image_backend cfg w image_id ok = (w1, Inr True)
         \<and> rows w1 = filter (\<lambda>r. id' r \<noteq> image_id) (rows w)
         \<and> image_id \<notin> id' ` set (list_images w1 search)
         \<and> select_by_id (rows w1) image_id = None
         \<and> delete_image_backend cfg w1 image_id ok' = (w1, Inl (HTTPException 404 ''Not found''))))
 \<and> (image_id \<notin> id' ` set (rows w) \<longrightarrow>
      delete_image cfg w image_id ok = (w, Inl (HTTPException 404 ''Not found''))
    \<and> delete_image_backend cfg w image_id ok = (w, Inl (HTTPException 404 ''Not found'')))"
proof (intro conjI impI)
  assume k: "image_id \<in> id' ` set (rows w)"
  have gone: "\<And>w1. rows w1 = db_delete (rows w) image_id \<Longrightarrow>
      image_id \<notin> id' ` set (list_images w1 search) \<and> select_by_id (rows w1) image_id = None
      \<and> image_id \<notin> id' ` set (rows w1)"
  proof -
    fix w1 :: world assume r: "rows w1 = db_delete (rows w) image_id"
    have n: "image_id \<notin> id' ` set (rows w1)" by (simp add: r db_delete_ids)
    moreover have "image_id \<notin> id' ` set (list_images w1 search)"
      using n list_images_subset[of w1 search] by blast
    ultimately show "image_id \<notin> id' ` set (list_images w1 search) \<and> select_by_id (rows w1) image_id = None
      \<and> image_id \<notin> id' ` set (rows w1)"
      by (simp add: select_by_id_None_iff)
  qed
  from delete_image_known[OF k, of cfg ok] obtain files' where
    d: "delete_image cfg w image_id ok = (\<lparr>rows = db_delete (rows w) image_id, fs = files'\<rparr>, Inr True)"
    by blast
  let ?w1 = "\<lparr>rows = db_delete (rows w) image_id, fs = files'\<rparr>"
  have "rows ?w1 = db_delete (rows w) image_id" by simp
  from gone[OF this] d
  show "\<exists>w1. delete_image cfg w image_id ok = (w1, Inr True)
         \<and> rows w1 = filter (\<lambda>r. id' r \<noteq> image_id) (rows w)
         \<and> image_id \<notin> id' ` set (list_images w1 search)
         \<and> select_by_id (rows w1) image_id = None
         \<and> delete_image cfg w1 image_id ok' = (w1, Inl (HTTPException 404 ''Not found''))"
    using delete_image_unknown[of image_id ?w1 cfg ok'] by (auto simp: db_delete_def)
  from delete_image_backend_known[OF k, of cfg ok] obtain files2 where
    d: "delete_image_backend cfg w image_id ok = (\<lparr>rows = db_delete (rows w) image_id, fs = files2\<rparr>, Inr True)"
    by blast
  let ?w2 = "\<lparr>rows = db_delete (rows w) image_id, fs = files2\<rparr>"
  have "rows ?w2 = db_delete (rows w) image_id" by simp
  from gone[OF this] d
  show "\<exists>w1. delete_image_backend cfg w image_id ok = (w1, Inr True)
         \<and> rows w1 = filter (\<lambda>r. id' r \<noteq> image_id) (rows w)
         \<and> image_id \<notin> id' ` set (list_images w1 search)
         \<and> select_by_id (rows w1) image_id = None
         \<and> delete_image_backend cfg w1 image_id ok' = (w1, Inl (HTTPException 404 ''Not found''))"
    using delete_image_backend_unknown[of image_id ?w2 cfg ok'] by (auto simp: db_delete_def)
next
  assume "image_id \<notin> id' ` set (rows w)"
  then show "delete_image cfg w image_id ok = (w, Inl (HTTPException 404 ''Not found''))"
    by (rule delete_image_unknown)
next
  assume "image_id \<notin> id' ` set (rows w)"
  then show "delete_image_backend cfg w image_id ok = (w, Inl (HTTPException 404 ''Not found''))"
    by (rule delete_image_backend_unknown)
qed

text \<open>C5 at a known and at an unknown identifier of the sample store.\<close>

theorem delete_image_removes_witness:
  "''0a'' \<in> id' ` set (rows demo_store)
   \<and> (\<exists>w1. delete_image demo_cfg demo_store ''0a'' True = (w1, Inr True)
         \<and> rows w1 = [demo_item_b]
         \<and> ''0a'' \<notin> id' ` set (list_images w1 None)
         \<and> delete_image demo_cfg w1 ''0a'' True = (w1, Inl (HTTPException 404 ''Not found'')))
   \<and> ''zz'' \<notin> id' ` set (rows demo_store)
   \<and> delete_image demo_cfg demo_store ''zz'' True = (demo_store, Inl (HTTPException 404 ''Not found''))"
proof -
  have h1: "''0a'' \<in> id' ` set (rows demo_store)"
    by (simp add: demo_store_def demo_item_a_def)
  have h2: "''zz'' \<notin> id' ` set (rows demo_store)"
    by (simp add: demo_store_def demo_item_a_def demo_item_b_def)
  have f: "filter (\<lambda>r. id' r \<noteq> ''0a'') (rows demo_store) = [demo_item_b]"
    by (simp add: demo_store_def demo_item_a_def demo_item_b_def)
  show ?thesis
    using h1 h2 f
      delete_image_removes [where image_id = "''0a''" and w = demo_store and cfg = demo_cfg
        and ok = True and ok' = True and search = None]
      delete_image_removes [where image_id = "''zz''" and w = demo_store and cfg = demo_cfg
        and ok = True]
    by auto
qed

text \<open>
  Claim C9. Deleting a known identifier returns \<^verbatim>\<open>{"ok": True}\<close> with the row
  removed for every filesystem and whether or not the filesystem lets the file be
  unlinked: the file may be absent, the path may be a directory, the removal may be
  refused. Every path of the filesystem afterwards is as before or gone. Both
  implementations.
\<close>

theorem delete_image_best_effort:
  assumes "image_id \<in> id' ` set (rows w)"
  shows "(\<exists>files'. delete_image cfg w image_id unlink_ok =
             (\<lparr>rows = db_delete (rows w) image_id, fs = files'\<rparr>, Inr True)
           \<and> (\<forall>p. files' p = fs w p \<or> files' p = None))
       \<and> (\<exists>files'. delete_image_backend cfg w image_id unlink_ok =
             (\<lparr>rows = db_delete (rows w) image_id, fs = files'\<rparr>, Inr True)
           \<and> (\<forall>p. files' p = fs w p \<or> files' p = None))"
  using delete_image_known[OF assms] delete_image_backend_known[OF assms] by blast


text \<open>C9 at the record of the sample store whose file is absent, with a disk that refuses removals.\<close>

theorem delete_image_best_effort_witness:
  "''0b'' \<in> id' ` set (rows demo_store)
   \<and> fs demo_store (path_div (STATIC_DIR demo_cfg) ''images/0b.png'') = None
   \<and> (\<exists>files'. delete_image demo_cfg demo_store ''0b'' False = (\<lparr>rows = [demo_item_a], fs = files'\<rparr>, Inr True))
   \<and> (\<exists>files'. delete_image_backend demo_cfg demo_store ''0b'' False = (\<lparr>rows = [demo_item_a], fs = files'\<rparr>, Inr True))"
proof -
  have h: "''0b'' \<in> id' ` set (rows demo_store)"
    by (simp add: demo_store_def demo_item_b_def)
  have f: "db_delete (rows demo_store) ''0b'' = [demo_item_a]"
    by (simp add: db_delete_def demo_store_def demo_item_a_def demo_item_b_def)
  have a: "fs demo_store (path_div (STATIC_DIR demo_cfg) ''images/0b.png'') = None"
    by (simp add: demo_store_def path_div_def parse_path_def startswith_def STATIC_DIR_def demo_cfg_def)
  show ?thesis
    using h f a delete_image_best_effort [OF h, of demo_cfg False] by auto
qed

subsection \<open>Public URLs\<close>

lemma startswith_slash_in_set: "startswith s ''/'' \<Longrightarrow> CHR ''/'' \<in> set s"
  by (cases s) (auto simp: startswith_def)

lemma path_div_plain:
  assumes "CHR ''/'' \<notin> set nm" "nm \<noteq> []" "nm \<noteq> ''.''"
  shows "path_div p nm = p @ [nm]"
proof -
  have "\<not> startswith nm ''/''" using assms(1) startswith_slash_in_set by blast
  then show ?thesis using assms by (simp add: path_div_def parse_path_def split_chr_no_sep)
qed

lemma stored_path:
  assumes "CHR ''/'' \<notin> set iid"
  shows "path_div d (iid @ ''.png'') = d @ [iid @ ''.png'']"
  using assms by (intro path_div_plain) auto

lemma path_name_snoc: "n \<noteq> ''/'' \<Longrightarrow> path_name (d @ [n]) = n"
  by (auto simp: path_name_def)

lemma stored_path_not_static:
  "CHR ''/'' \<notin> set iid \<Longrightarrow> path_div d (iid @ ''.png'') \<noteq> STATIC_DIR cfg"
  by (simp add: stored_path STATIC_DIR_def)

lemma build_public_url_static:
  "prefix (STATIC_DIR cfg) p \<Longrightarrow>
   build_public_url cfg p = ''/static/'' @ as_posix (drop (length (STATIC_DIR cfg)) p)"
  by (simp add: build_public_url_def relative_to_def)

lemma build_public_url_indirect:
  "\<not> prefix (STATIC_DIR cfg) p \<Longrightarrow> build_public_url cfg p = ''/api/file/'' @ path_name p"
  by (simp add: build_public_url_def relative_to_def)

text \<open>
  Claim C7. \<^verbatim>\<open>build_public_url\<close> is a function of the path and the configured roots
  alone. For every path other than the static root itself (a stored file path
  \<^verbatim>\<open>IMAGE_DIR / "<id>.png"\<close> never is the static root, lemma \<open>stored_path_not_static\<close>),
  the URL is \<^verbatim>\<open>/static/\<close> followed by the path relative to the static root when the path lies
  beneath the static root, and \<^verbatim>\<open>/api/file/\<close> followed by the bare name of the file
  otherwise; it starts with \<^verbatim>\<open>/static/\<close> exactly in the first case.
\<close>

theorem build_public_url_cases:
  assumes "p \<noteq> STATIC_DIR cfg"
  shows "(lies_beneath p (STATIC_DIR cfg) \<longrightarrow>
            build_public_url cfg p = ''/static/'' @ as_posix (drop (length (STATIC_DIR cfg)) p))
       \<and> (\<not> lies_beneath p (STATIC_DIR cfg) \<longrightarrow>
            build_public_url cfg p = ''/api/file/'' @ path_name p)
       \<and> (startswith (build_public_url cfg p) ''/static/'' \<longleftrightarrow> lies_beneath p (STATIC_DIR cfg))"
proof -
  have b: "lies_beneath p (STATIC_DIR cfg) \<longleftrightarrow> prefix (STATIC_DIR cfg) p"
    using assms by (auto simp: lies_beneath_def strict_prefix_def)
  show ?thesis
    unfolding b
    by (cases "prefix (STATIC_DIR cfg) p")
       (simp_all add: build_public_url_static build_public_url_indirect startswith_def)
qed

text \<open>
  For the path the upload loop writes to, the choice depends on the storage root only;
  under the default storage root the URL is the one \<^verbatim>\<open>src/backend/main.py\<close> writes
  out by hand.
\<close>

lemma build_public_url_stored:
  assumes "CHR ''/'' \<notin> set iid"
  shows "build_public_url cfg (path_div (IMAGE_DIR cfg) (iid @ ''.png'')) =
           (if prefix (STATIC_DIR cfg) (IMAGE_DIR cfg)
            then ''/static/'' @ as_posix (drop (length (STATIC_DIR cfg)) (IMAGE_DIR cfg) @ [iid @ ''.png''])
            else ''/api/file/'' @ iid @ ''.png'')"
proof (cases "prefix (STATIC_DIR cfg) (IMAGE_DIR cfg)")
  case True
  then have "length (STATIC_DIR cfg) \<le> length (IMAGE_DIR cfg)" by (rule prefix_length_le)
  then show ?thesis using True
    by (simp add: stored_path[OF assms] build_public_url_static prefix_prefix)
next
  case False
  have "\<not> prefix (STATIC_DIR cfg) (IMAGE_DIR cfg @ [iid @ ''.png''])"
    using False by (auto simp: STATIC_DIR_def)
  then show ?thesis using False
    by (simp add: stored_path[OF assms] build_public_url_indirect path_name_snoc)
qed

lemma build_public_url_backend:
  assumes "CHR ''/'' \<notin> set iid"
  shows "build_public_url cfg (path_div (IMG_DIR_backend cfg) (iid @ ''.png'')) =
           ''/static/images/'' @ iid @ ''.png''"
  by (simp add: stored_path[OF assms] IMG_DIR_backend_def build_public_url_static as_posix_def)

text \<open>C7 at a path on a separate volume and at a path under the static tree.\<close>

theorem build_public_url_cases_witness:
  "[''/'', ''data'', ''images'', ''0a.png''] \<noteq> STATIC_DIR demo_cfg
   \<and> \<not> lies_beneath [''/'', ''data'', ''images'', ''0a.png''] (STATIC_DIR demo_cfg)
   \<and> build_public_url demo_cfg [''/'', ''data'', ''images'', ''0a.png''] = ''/api/file/0a.png''
   \<and> [''/'', ''app'', ''static'', ''images'', ''0a.png''] \<noteq> STATIC_DIR demo_cfg
   \<and> lies_beneath [''/'', ''app'', ''static'', ''images'', ''0a.png''] (STATIC_DIR demo_cfg)
   \<and> build_public_url demo_cfg [''/'', ''app'', ''static'', ''images'', ''0a.png''] = ''/static/images/0a.png''"
proof -
  have h1: "[''/'', ''data'', ''images'', ''0a.png''] \<noteq> STATIC_DIR demo_cfg"
    by (simp add: STATIC_DIR_def demo_cfg_def)
  have h2: "[''/'', ''app'', ''static'', ''images'', ''0a.png''] \<noteq> STATIC_DIR demo_cfg"
    by (simp add: STATIC_DIR_def demo_cfg_def)
  have n: "\<not> lies_beneath [''/'', ''data'', ''images'', ''0a.png''] (STATIC_DIR demo_cfg)"
    by (simp add: lies_beneath_def STATIC_DIR_def demo_cfg_def)
  have y: "lies_beneath [''/'', ''app'', ''static'', ''images'', ''0a.png''] (STATIC_DIR demo_cfg)"
    by (simp add: lies_beneath_def STATIC_DIR_def demo_cfg_def)
  have d: "as_posix (drop (length (STATIC_DIR demo_cfg)) [''/'', ''app'', ''static'', ''images'', ''0a.png'']) = ''images/0a.png''"
    by (simp add: STATIC_DIR_def demo_cfg_def as_posix_def)
  have m: "path_name [''/'', ''data'', ''images'', ''0a.png''] = ''0a.png''"
    by (simp add: path_name_def)
  show ?thesis
    using h1 h2 n y d m build_public_url_cases [OF h1] build_public_url_cases [OF h2]
    by simp
qed

subsection \<open>File serving\<close>

lemma DB_PATH_served: "path_div (IMAGE_DIR cfg) ''images.db'' = DB_PATH cfg"
  by (simp add: DB_PATH_def path_div_plain)

text \<open>
  Claim C10. \<^verbatim>\<open>serve_file\<close> answers with the bytes of whatever regular file sits at
  the storage root under the requested name, labelled \<^verbatim>\<open>image/png\<close>; nothing restricts
  the name to canonical image files. The name \<^verbatim>\<open>images.db\<close> resolves to
  \<^verbatim>\<open>DB_PATH\<close>, the file \<^verbatim>\<open>sqlite3.connect\<close> keeps the table in, so the database
  is served like any image.
\<close>

theorem serve_file_any_file:
  "(fs w (path_div (IMAGE_DIR cfg) nm) = Some (File b) \<longrightarrow> serve_file cfg w nm = Inr (b, ''image/png''))
   \<and> path_div (IMAGE_DIR cfg) ''images.db'' = DB_PATH cfg
   \<and> (fs w (DB_PATH cfg) = Some (File b) \<longrightarrow> serve_file cfg w ''images.db'' = Inr (b, ''image/png''))"
  by (simp add: serve_file_def DB_PATH_served)

text \<open>C10 with the storage root on a separate volume and a database file of three bytes.\<close>

theorem serve_file_any_file_witness:
  "fs demo_disk_world (DB_PATH demo_cfg_disk) = Some (File [83, 81, 76])
   \<and> serve_file demo_cfg_disk demo_disk_world ''images.db'' = Inr ([83, 81, 76], ''image/png'')"
proof -
  have h: "fs demo_disk_world (DB_PATH demo_cfg_disk) = Some (File [83, 81, 76])"
    by (simp add: demo_disk_world_def DB_PATH_def IMAGE_DIR_def demo_cfg_disk_def parse_path_def
          startswith_def)
  show ?thesis
    using h serve_file_any_file [of demo_disk_world demo_cfg_disk "''images.db''" "[83, 81, 76]"]
    by simp
qed

subsection \<open>Listing\<close>

lemma lower_chr_idem [simp]: "lower_chr (lower_chr c) = lower_chr c"
  by (auto simp: lower_chr_def Let_def)

lemma lower_idem [simp]: "lower (lower s) = lower s"
  by (simp add: lower_def)

lemma sql_like_percent [simp]: "sql_like ''%'' t"
  by (induction t) auto

lemma sql_like_plain_prefix:
  assumes "CHR ''%'' \<notin> set s" "CHR ''_'' \<notin> set s"
  shows "sql_like (s @ ''%'') t \<longleftrightarrow> (\<exists>mid post. t = mid @ post \<and> lower mid = lower s)"
  using assms
proof (induction s arbitrary: t)
  case Nil
  then show ?case by (simp add: lower_def)
next
  case (Cons p ps)
  show ?case
  proof (cases t)
    case Nil
    then show ?thesis using Cons.prems by (auto simp: lower_def)
  next
    case (Cons c cs)
    have "sql_like ((p # ps) @ ''%'') (c # cs) \<longleftrightarrow> lower_chr p = lower_chr c \<and> sql_like (ps @ ''%'') cs"
      using Cons.prems by auto
    also have "\<dots> \<longleftrightarrow> lower_chr p = lower_chr c \<and> (\<exists>mid post. cs = mid @ post \<and> lower mid = lower ps)"
      using Cons.IH[of cs] Cons.prems by simp
    also have "\<dots> \<longleftrightarrow> (\<exists>mid post. c # cs = mid @ post \<and> lower mid = lower (p # ps))"
    proof
      assume "lower_chr p = lower_chr c \<and> (\<exists>mid post. cs = mid @ post \<and> lower mid = lower ps)"
      then obtain mid post where "cs = mid @ post" "lower mid = lower ps" "lower_chr p = lower_chr c" by blast
      then have "c # cs = (c # mid) @ post \<and> lower (c # mid) = lower (p # ps)" by (simp add: lower_def)
      then show "\<exists>mid post. c # cs = mid @ post \<and> lower mid = lower (p # ps)" by blast
    next
      assume "\<exists>mid post. c # cs = mid @ post \<and> lower mid = lower (p # ps)"
      then obtain mid post where m: "c # cs = mid @ post" "lower mid = lower (p # ps)" by blast
      then obtain m' where "mid = c # m'" by (cases mid) (auto simp: lower_def)
      then show "lower_chr p = lower_chr c \<and> (\<exists>mid post. cs = mid @ post \<and> lower mid = lower ps)"
        using m by (auto simp: lower_def)
    qed
    finally show ?thesis using Cons by simp
  qed
qed

lemma sql_like_percent_Cons:
  "sql_like (CHR ''%'' # q) t \<longleftrightarrow> (\<exists>pre rest. t = pre @ rest \<and> sql_like q rest)"
proof (induction t)
  case Nil
  then show ?case by (cases q) auto
next
  case (Cons c cs)
  have "sql_like (CHR ''%'' # q) (c # cs) \<longleftrightarrow> sql_like q (c # cs) \<or> sql_like (CHR ''%'' # q) cs"
    by simp
  also have "\<dots> \<longleftrightarrow> sql_like q (c # cs) \<or> (\<exists>pre rest. cs = pre @ rest \<and> sql_like q rest)"
    using Cons.IH by simp
  also have "\<dots> \<longleftrightarrow> (\<exists>pre rest. c # cs = pre @ rest \<and> sql_like q rest)"
  proof
    assume "sql_like q (c # cs) \<or> (\<exists>pre rest. cs = pre @ rest \<and> sql_like q rest)"
    then show "\<exists>pre rest. c # cs = pre @ rest \<and> sql_like q rest"
    proof
      assume "sql_like q (c # cs)"
      then have "c # cs = [] @ (c # cs) \<and> sql_like q (c # cs)" by simp
      then show ?thesis by blast
    next
      assume "\<exists>pre rest. cs = pre @ rest \<and> sql_like q rest"
      then obtain pre rest where "cs = pre @ rest" "sql_like q rest" by blast
      then have "c # cs = (c # pre) @ rest \<and> sql_like q rest" by simp
      then show ?thesis by blast
    qed
  next
    assume "\<exists>pre rest. c # cs = pre @ rest \<and> sql_like q rest"
    then obtain pre rest where pr: "c # cs = pre @ rest" "sql_like q rest" by blast
    show "sql_like q (c # cs) \<or> (\<exists>pre rest. cs = pre @ rest \<and> sql_like q rest)"
    proof (cases pre)
      case Nil
      then show ?thesis using pr by simp
    next
      case (Cons a pre')
      then have "cs = pre' @ rest" using pr by simp
      then show ?thesis using pr(2) by blast
    qed
  qed
  finally show ?case .
qed

lemma sql_like_contains:
  assumes "CHR ''%'' \<notin> set s" "CHR ''_'' \<notin> set s"
  shows "sql_like (''%'' @ s @ ''%'') t \<longleftrightarrow> (\<exists>pre mid post. t = pre @ mid @ post \<and> lower mid = lower s)"
proof -
  have "sql_like (''%'' @ s @ ''%'') t \<longleftrightarrow> (\<exists>pre rest. t = pre @ rest \<and> sql_like (s @ ''%'') rest)"
    using sql_like_percent_Cons[of "s @ ''%''" t] by simp
  also have "\<dots> \<longleftrightarrow> (\<exists>pre rest. t = pre @ rest \<and> (\<exists>mid post. rest = mid @ post \<and> lower mid = lower s))"
    by (simp only: sql_like_plain_prefix[OF assms])
  also have "\<dots> \<longleftrightarrow> (\<exists>pre mid post. t = pre @ mid @ post \<and> lower mid = lower s)"
    by blast
  finally show ?thesis .
qed

lemma lower_chr_wildcard:
  "lower_chr c = CHR ''%'' \<longleftrightarrow> c = CHR ''%''"
  "lower_chr c = CHR ''_'' \<longleftrightarrow> c = CHR ''_''"
  "CHR ''%'' = lower_chr c \<longleftrightarrow> c = CHR ''%''"
  "CHR ''_'' = lower_chr c \<longleftrightarrow> c = CHR ''_''"
  using lower_chr_fixes[of "CHR ''%''" c] lower_chr_fixes[of "CHR ''_''" c]
  by auto

lemma lower_wildcard_free:
  "CHR ''%'' \<notin> set (lower s) \<longleftrightarrow> CHR ''%'' \<notin> set s"
  "CHR ''_'' \<notin> set (lower s) \<longleftrightarrow> CHR ''_'' \<notin> set s"
  unfolding lower_def by (induction s) (auto simp: lower_chr_wildcard)

lemma sql_like_lower_contains:
  assumes "CHR ''%'' \<notin> set s" "CHR ''_'' \<notin> set s"
  shows "sql_like (CHR ''%'' # lower s @ ''%'') (lower nm) \<longleftrightarrow> contains_ci nm s"
proof -
  have w: "CHR ''%'' \<notin> set (lower s)" "CHR ''_'' \<notin> set (lower s)"
    using assms by (simp_all add: lower_wildcard_free)
  have "sql_like (CHR ''%'' # lower s @ ''%'') (lower nm) \<longleftrightarrow>
        (\<exists>pre mid post. lower nm = pre @ mid @ post \<and> lower mid = lower s)"
    using sql_like_contains[OF w, of "lower nm"] by simp
  also have "\<dots> \<longleftrightarrow> (\<exists>pre post. lower nm = pre @ lower s @ post)"
  proof
    assume "\<exists>pre mid post. lower nm = pre @ mid @ post \<and> lower mid = lower s"
    then obtain pre mid post where m: "lower nm = pre @ mid @ post" "lower mid = lower s" by blast
    have "lower (lower nm) = lower pre @ lower mid @ lower post" using m(1) by (simp add: lower_def)
    then have "lower nm = lower pre @ lower s @ lower post" using m(2) by simp
    then show "\<exists>pre post. lower nm = pre @ lower s @ post" by blast
  next
    assume "\<exists>pre post. lower nm = pre @ lower s @ post"
    then obtain pre post where "lower nm = pre @ lower s @ post" by blast
    then have "lower nm = pre @ lower s @ post \<and> lower (lower s) = lower s" by simp
    then show "\<exists>pre mid post. lower nm = pre @ mid @ post \<and> lower mid = lower s" by blast
  qed
  finally show ?thesis by (simp add: contains_ci_def sublist_def)
qed

lemma order_by_created_at_desc_sorted: "created_at_descending (order_by_created_at_desc rs)"
proof -
  have "sorted (map created_at (sort_key created_at rs))" by (rule sorted_sort_key)
  then have "sorted_wrt (\<lambda>a b. created_at a \<le> created_at b) (sort_key created_at rs)"
    by (simp add: sorted_map)
  then show ?thesis
    by (simp add: created_at_descending_def order_by_created_at_desc_def sorted_wrt_rev)
qed

lemma mset_order_by_created_at_desc [simp]: "mset (order_by_created_at_desc rs) = mset rs"
  by (simp add: order_by_created_at_desc_def)

text \<open>
  Without a search string, or with an empty one, the listing is the whole table, newest
  first. With a search string free of \<^verbatim>\<open>%\<close> and \<^verbatim>\<open>_\<close> it is, newest first, the
  rows whose name contains the string case-insensitively.
\<close>

lemma list_images_all:
  assumes "search = None \<or> search = Some []"
  shows "mset (list_images w search) = mset (rows w)"
    and "length (list_images w search) = length (rows w)"
    and "created_at_descending (list_images w search)"
proof -
  have e: "list_images w search = order_by_created_at_desc (rows w)"
    using assms by (auto simp: list_images_def)
  show "mset (list_images w search) = mset (rows w)" by (simp add: e)
  then show "length (list_images w search) = length (rows w)" by (metis size_mset)
  show "created_at_descending (list_images w search)"
    unfolding e by (rule order_by_created_at_desc_sorted)
qed

lemma list_images_plain_search:
  assumes "s \<noteq> []" "CHR ''%'' \<notin> set s" "CHR ''_'' \<notin> set s"
  shows "mset (list_images w (Some s)) = mset (filter (\<lambda>r. contains_ci (name r) s) (rows w))"
    and "created_at_descending (list_images w (Some s))"
proof -
  have e: "list_images w (Some s) = order_by_created_at_desc (filter (\<lambda>r. contains_ci (name r) s) (rows w))"
    using assms(1) by (simp add: list_images_def Let_def sql_like_lower_contains[OF assms(2,3)])
  show "mset (list_images w (Some s)) = mset (filter (\<lambda>r. contains_ci (name r) s) (rows w))"
    by (simp add: e)
  show "created_at_descending (list_images w (Some s))"
    unfolding e by (rule order_by_created_at_desc_sorted)
qed

text \<open>
  Claim C4. The listing without a search string is as claimed (lemma
  \<open>list_images_all\<close>), and so is the listing for a search string without \<^verbatim>\<open>%\<close> and
  \<^verbatim>\<open>_\<close> (lemma \<open>list_images_plain_search\<close>). The search string goes into the
  \<^verbatim>\<open>LIKE\<close> pattern as it is, though, so these two characters act as wildcards: on the
  sample store the search \<^verbatim>\<open>_\<close> returns both records, and neither name contains an
  underscore.
\<close>

theorem list_images_wildcard_search:
  "list_images demo_store (Some ''_'') = [demo_item_b, demo_item_a]
   \<and> \<not> contains_ci (name demo_item_a) ''_'' \<and> \<not> contains_ci (name demo_item_b) ''_''"
proof -
  have lo: "lower ''_'' = ''_''" "lower ''Icon.PNG'' = ''icon.png''" "lower ''b.jpeg'' = ''b.jpeg''"
    by code_simp+
  have m: "sql_like ''%_%'' ''icon.png''" "sql_like ''%_%'' ''b.jpeg''"
    by simp_all
  have o: "order_by_created_at_desc [demo_item_a, demo_item_b] = [demo_item_b, demo_item_a]"
    by (simp add: order_by_created_at_desc_def demo_item_a_def demo_item_b_def)
  have f: "filter (\<lambda>r. sql_like ''%_%'' (lower (name r))) (rows demo_store) = [demo_item_a, demo_item_b]"
    using m by (simp add: demo_store_def demo_item_a_def demo_item_b_def lo)
  have l: "list_images demo_store (Some ''_'') = [demo_item_b, demo_item_a]"
    using f o by (simp add: list_images_def Let_def lo)
  have n: "\<not> sublist ''_'' ''icon.png''" "\<not> sublist ''_'' ''b.jpeg''"
    by (simp_all add: sublist_Cons_right)
  have c: "\<not> contains_ci (name demo_item_a) ''_''" "\<not> contains_ci (name demo_item_b) ''_''"
    using n by (simp_all add: contains_ci_def demo_item_a_def demo_item_b_def lo)
  show ?thesis using l c by simp
qed

subsection \<open>Codec adapters\<close>









text \<open>The sample codec writes these bytes for no array with an alpha channel.\<close>

lemma demo_png_of_no_alpha_array:
  "\<not> (\<exists>arr. has_alpha_channel arr \<and> imwrite_png demo_io arr = Some [2, 3, 3, 9])"
proof
  assume "\<exists>arr. has_alpha_channel arr \<and> imwrite_png demo_io arr = Some [2, 3, 3, 9]"
  then obtain arr where a: "has_alpha_channel arr" "imwrite_png demo_io arr = Some [2, 3, 3, 9]"
    by blast
  from a(1) obtain h w c where s: "shape arr = [h, w, c]" "c = 2 \<or> c = 4"
    by (auto simp: has_alpha_channel_def split: list.splits)
  from a(2) s(1) have "(of_nat c :: 8 word) = 3" by (simp add: demo_io_def)
  with s(2) show False by auto
qed


end
